theory Spec2Isabelle
  imports Main "HOL-Library.Sublist"
begin

section \<open>Healix: the retrieval-augmented medical chatbot\<close>

text \<open>
  Python strings are modelled as \<open>string\<close> (lists of characters), Python exceptions as
  values of type \<open>exn\<close>, and a call that may raise returns \<open>exn + 'a\<close> with \<open>Inl\<close> for the
  raised exception. Only exceptions derived from Python's \<open>Exception\<close> are modelled: these
  are what the external services raise and what \<open>except Exception\<close> catches.
\<close>

datatype exn = Exception string

subsection \<open>Documents and messages\<close>

text \<open>
  A langchain \<open>Document\<close> has a text and a metadata dictionary. The values stored by this
  program are strings (source, type, the page marker N/A) and integers (rank, the page number
  of a PDF page).
\<close>

datatype meta_value = MStr string | MInt int

record document =
  page_content :: string
  metadata :: "string \<rightharpoonup> meta_value"

datatype message = HumanMessage string | AIMessage string

subsection \<open>Rendering values as text\<close>

definition digit_char :: "nat \<Rightarrow> char" where
  "digit_char d = char_of (48 + d)"

fun str_nat :: "nat \<Rightarrow> string" where
  "str_nat n = (if n < 10 then [digit_char n] else str_nat (n div 10) @ [digit_char (n mod 10)])"

declare str_nat.simps [simp del]

definition str_int :: "int \<Rightarrow> string" where
  "str_int i = (if i < 0 then CHR ''-'' # str_nat (nat (- i)) else str_nat (nat i))"

fun str_meta :: "meta_value \<Rightarrow> string" where
  "str_meta (MStr s) = s"
| "str_meta (MInt i) = str_int i"

text \<open>\<open>sep.join(parts)\<close>\<close>

fun join :: "string \<Rightarrow> string list \<Rightarrow> string" where
  "join sep [] = []"
| "join sep [x] = x"
| "join sep (x # y # ys) = x @ sep @ join sep (y # ys)"

definition newline :: char where
  "newline = CHR 0x0A"

text \<open>\<open>s.replace("\n", " ")\<close>\<close>

definition replace_newlines :: "string \<Rightarrow> string" where
  "replace_newlines s = map (\<lambda>c. if c = newline then CHR '' '' else c) s"

subsection \<open>rag\_engine.py\<close>

text \<open>\<open>doc.metadata.get(key, default)\<close>\<close>

definition meta_get :: "document \<Rightarrow> string \<Rightarrow> meta_value \<Rightarrow> meta_value" where
  "meta_get doc key dflt = (case metadata doc key of None \<Rightarrow> dflt | Some v \<Rightarrow> v)"

definition format_doc :: "document \<Rightarrow> string" where
  "format_doc doc =
     (let source = meta_get doc ''source'' (MStr ''Unknown'');
          page = meta_get doc ''page'' (MStr ''N/A'');
          doc_type = meta_get doc ''type'' (MStr ''General'');
          rank = meta_get doc ''rank'' (MInt 2);
          content = replace_newlines (page_content doc)
      in ''Source: '' @ str_meta source @ '' (Page '' @ str_meta page @ '') [Type: ''
           @ str_meta doc_type @ '', Rank: '' @ str_meta rank @ '']'' @ [newline]
           @ ''Content: '' @ content @ [newline])"

definition format_docs :: "document list \<Rightarrow> string" where
  "format_docs docs = join [newline, newline] (map format_doc docs)"

text \<open>
  The three external services built by \<open>get_rag_chain\<close>: the rephrasing chain
  (prompt, model, parser), the retriever of the vector store (k = 5), and the answering
  chain. Each call may raise, and each may change the outside world \<open>'w\<close> (quota, the
  model's own state), so the world is passed through every call.
\<close>

record 'w services =
  rephrase_chain :: "string \<Rightarrow> message list \<Rightarrow> 'w \<Rightarrow> 'w \<times> (exn + string)"
  retriever :: "string \<Rightarrow> 'w \<Rightarrow> 'w \<times> (exn + document list)"
  answer_chain :: "string \<Rightarrow> message list \<Rightarrow> string \<Rightarrow> 'w \<Rightarrow> 'w \<times> (exn + string)"

text \<open>The calls made to the services are recorded, in order, beside the world.\<close>

datatype call =
    RephraseCall string "message list"
  | RetrieveCall string
  | AnswerCall string "message list" string

type_synonym 'w ext = "'w \<times> call list"

text \<open>The dictionary passed to the chain: its keys \<open>input\<close> and \<open>chat_history\<close>.\<close>

record chain_input =
  inp_input :: string
  inp_chat_history :: "message list"

text \<open>The dictionary returned by the chain.\<close>

record chain_output =
  out_input :: string
  out_chat_history :: "message list"
  out_context :: "document list"
  out_answer :: string

definition history_aware_retrieve ::
    "'w services \<Rightarrow> chain_input \<Rightarrow> 'w ext \<Rightarrow> 'w ext \<times> (exn + document list)" where
  "history_aware_retrieve svc inp st =
     (let chat_history = inp_chat_history inp;
          question = inp_input inp;
          (w, log) = st
      in if chat_history \<noteq> [] then
           (case rephrase_chain svc question chat_history w of
              (w1, Inl e) \<Rightarrow> ((w1, log @ [RephraseCall question chat_history]), Inl e)
            | (w1, Inr question') \<Rightarrow>
                (case retriever svc question' w1 of
                   (w2, r) \<Rightarrow>
                     ((w2, log @ [RephraseCall question chat_history, RetrieveCall question']), r)))
         else
           (case retriever svc question w of
              (w2, r) \<Rightarrow> ((w2, log @ [RetrieveCall question]), r)))"

definition full_chain ::
    "'w services \<Rightarrow> chain_input \<Rightarrow> 'w ext \<Rightarrow> 'w ext \<times> (exn + chain_output)" where
  "full_chain svc inp st =
     (case history_aware_retrieve svc inp st of
        (st1, Inl e) \<Rightarrow> (st1, Inl e)
      | ((w1, log1), Inr docs) \<Rightarrow>
          (let context_str = format_docs docs in
           case answer_chain svc (inp_input inp) (inp_chat_history inp) context_str w1 of
             (w2, Inl e) \<Rightarrow>
               ((w2, log1 @ [AnswerCall (inp_input inp) (inp_chat_history inp) context_str]), Inl e)
           | (w2, Inr answer) \<Rightarrow>
               ((w2, log1 @ [AnswerCall (inp_input inp) (inp_chat_history inp) context_str]),
                Inr \<lparr>out_input = inp_input inp, out_chat_history = inp_chat_history inp,
                     out_context = docs, out_answer = answer\<rparr>)))"

subsection \<open>chatbot.py\<close>

text \<open>
  A \<open>MedicalChatbot\<close> holds its list of (human, ai) turns; the world of the services and
  the record of the calls made so far travel with it.
\<close>

record 'w MedicalChatbot =
  chat_history :: "(string \<times> string) list"
  world :: 'w
  calls :: "call list"

definition apology :: string where
  "apology = ''I apologize, but I encountered an error while processing your request. Please try again.''"

definition lc_history_of :: "(string \<times> string) list \<Rightarrow> message list" where
  "lc_history_of h = concat (map (\<lambda>(h_msg, ai_msg). [HumanMessage h_msg, AIMessage ai_msg]) h)"

definition get_answer ::
    "'w services \<Rightarrow> string \<Rightarrow> 'w MedicalChatbot \<Rightarrow> (exn + string) \<times> 'w MedicalChatbot" where
  "get_answer svc query self =
     (if query = [] then (Inr [], self)
      else
        let lc_history = lc_history_of (chat_history self) in
        case full_chain svc \<lparr>inp_input = query, inp_chat_history = lc_history\<rparr>
               (world self, calls self) of
          ((w, log), Inr response) \<Rightarrow>
            (let answer = out_answer response in
             (Inr answer,
              self\<lparr>chat_history := chat_history self @ [(query, answer)], world := w, calls := log\<rparr>))
        | ((w, log), Inl e) \<Rightarrow> (Inr apology, self\<lparr>world := w, calls := log\<rparr>))"

definition clear_history :: "'w MedicalChatbot \<Rightarrow> 'w MedicalChatbot" where
  "clear_history self = self\<lparr>chat_history := []\<rparr>"

text \<open>A session: the questions asked one after the other.\<close>

fun ask_all :: "'w services \<Rightarrow> string list \<Rightarrow> 'w MedicalChatbot \<Rightarrow> 'w MedicalChatbot" where
  "ask_all svc [] self = self"
| "ask_all svc (q # qs) self = ask_all svc qs (snd (get_answer svc q self))"

subsection \<open>ingest.py\<close>

text \<open>
  Python's \<open>str\<close> operations on the ASCII range: \<open>lower\<close> maps A to Z onto a to z,
  \<open>strip\<close> removes the characters for which \<open>isspace\<close> holds (tab, line feed, vertical tab,
  form feed, carriage return, the four separators 28 to 31, and the space) from both ends.
  Characters outside ASCII are left as they are.
\<close>

definition lower_char :: "char \<Rightarrow> char" where
  "lower_char c =
     (let n = (of_char c :: nat) in if 65 \<le> n \<and> n \<le> 90 then char_of (n + 32) else c)"

definition lower :: "string \<Rightarrow> string" where
  "lower s = map lower_char s"

definition isspace :: "char \<Rightarrow> bool" where
  "isspace c = (let n = (of_char c :: nat) in (9 \<le> n \<and> n \<le> 13) \<or> (28 \<le> n \<and> n \<le> 32))"

definition strip :: "string \<Rightarrow> string" where
  "strip s = rev (dropWhile isspace (rev (dropWhile isspace s)))"

text \<open>\<open>s.split('\n')\<close>: never the empty list, a trailing line feed gives a last empty line.\<close>

fun split_nl :: "string \<Rightarrow> string list" where
  "split_nl [] = [ [] ]"
| "split_nl (c # cs) =
     (if c = newline then [] # split_nl cs
      else (case split_nl cs of [] \<Rightarrow> [ [c] ] | l # ls \<Rightarrow> (c # l) # ls))"

text \<open>\<open>sub in s\<close>, \<open>s.endswith(suf)\<close>\<close>

fun str_in :: "string \<Rightarrow> string \<Rightarrow> bool" where
  "str_in sub [] = (sub = [])"
| "str_in sub (c # cs) = (prefix sub (c # cs) \<or> str_in sub cs)"

definition endswith :: "string \<Rightarrow> string \<Rightarrow> bool" where
  "endswith s suf = suffix suf s"

text \<open>\<open>os.path.basename\<close> and \<open>os.path.join\<close> of two components, as \<open>posixpath\<close> has them.\<close>

definition basename :: "string \<Rightarrow> string" where
  "basename p = rev (takeWhile (\<lambda>c. c \<noteq> CHR ''/'') (rev p))"

definition path_join :: "string \<Rightarrow> string \<Rightarrow> string" where
  "path_join a b =
     (if prefix ''/'' b then b
      else if a = [] \<or> endswith a ''/'' then a @ b
      else a @ ''/'' @ b)"

text \<open>
  What \<open>ingest_documents\<close> reads from outside: the file system, the two loaders
  (\<open>PyPDFLoader(path).load()\<close>, \<open>CSVLoader(path, encoding="utf-8").load()\<close>), the
  \<open>clean\<close> function of the clean-text library with the options fixed in
  \<open>clean_text_content\<close>, and the text splitting of the langchain splitter
  (chunk size 3000, overlap 200, separators paragraph, line, space, character).
\<close>

record ingest_env =
  path_exists :: "string \<Rightarrow> bool"
  listdir :: "string \<Rightarrow> exn + string list"
  load_pdf :: "string \<Rightarrow> exn + document list"
  load_csv :: "string \<Rightarrow> exn + document list"
  clean :: "string \<Rightarrow> exn + string"
  split_text :: "string \<Rightarrow> string list"

text \<open>The post-pass of \<open>clean_text_content\<close> on the cleaned text (its last three lines).\<close>

definition keep_line :: "string \<Rightarrow> bool" where
  "keep_line line = (length (strip line) > 3 \<or> strip line = [])"

definition drop_short_lines :: "string \<Rightarrow> string" where
  "drop_short_lines cleaned =
     (let lines = split_nl cleaned;
          filtered_lines = filter keep_line lines
      in join [newline] filtered_lines)"

definition clean_text_content :: "ingest_env \<Rightarrow> string \<Rightarrow> exn + string" where
  "clean_text_content env text =
     (case clean env text of
        Inl e \<Rightarrow> Inl e
      | Inr cleaned \<Rightarrow> Inr (drop_short_lines cleaned))"

definition determine_metadata :: "string \<Rightarrow> string \<times> int" where
  "determine_metadata file_path =
     (let filename = lower (basename file_path) in
      if str_in ''guideline'' filename then (''guideline'', 1)
      else if str_in ''textbook'' filename then (''textbook'', 2)
      else if str_in ''faq'' filename \<or> endswith file_path ''.csv'' then (''faq'', 3)
      else (''textbook'', 2))"

text \<open>
  The body of the loop over the documents of one file: the cleaned text replaces the content,
  source, type and rank are written into the metadata, and a page is added when the loader
  gave none.
\<close>

definition stamp :: "string \<Rightarrow> string \<Rightarrow> int \<Rightarrow> string \<Rightarrow> document \<Rightarrow> document" where
  "stamp filename doc_type rank content doc =
     (let m = (metadata doc)(''source'' \<mapsto> MStr filename, ''type'' \<mapsto> MStr doc_type,
                             ''rank'' \<mapsto> MInt rank)
      in \<lparr>page_content = content,
          metadata = (if m ''page'' = None then m(''page'' \<mapsto> MStr ''N/A'') else m)\<rparr>)"

text \<open>
  An exception raised while a document is cleaned leaves the loop over the file's documents
  and is caught by the handler of the file: the documents appended before it stay.
\<close>

fun stamp_docs ::
    "ingest_env \<Rightarrow> string \<Rightarrow> string \<Rightarrow> int \<Rightarrow> document list \<Rightarrow> document list \<Rightarrow> document list" where
  "stamp_docs env filename doc_type rank [] documents = documents"
| "stamp_docs env filename doc_type rank (doc # rest) documents =
     (case clean_text_content env (page_content doc) of
        Inl e \<Rightarrow> documents
      | Inr content \<Rightarrow>
          stamp_docs env filename doc_type rank rest
            (documents @ [stamp filename doc_type rank content doc]))"

fun ingest_files :: "ingest_env \<Rightarrow> string \<Rightarrow> string list \<Rightarrow> document list \<Rightarrow> document list" where
  "ingest_files env data_dir [] documents = documents"
| "ingest_files env data_dir (filename # rest) documents =
     (let file_path = path_join data_dir filename;
          (doc_type, rank) = determine_metadata file_path
      in if endswith filename ''.pdf'' then
           (case load_pdf env file_path of
              Inl e \<Rightarrow> ingest_files env data_dir rest documents
            | Inr loaded_docs \<Rightarrow>
                ingest_files env data_dir rest
                  (stamp_docs env filename doc_type rank loaded_docs documents))
         else if endswith filename ''.csv'' then
           (case load_csv env file_path of
              Inl e \<Rightarrow> ingest_files env data_dir rest documents
            | Inr loaded_docs \<Rightarrow>
                ingest_files env data_dir rest
                  (stamp_docs env filename doc_type rank loaded_docs documents))
         else ingest_files env data_dir rest documents)"

text \<open>
  Modelled from the spec: \<open>split_documents\<close> of the langchain text splitter, which is not
  among the sources. Section 4.3: every document is split into its chunks, in order, and
  the metadata of the document is copied verbatim onto each of its chunks. How a text is
  cut is the parameter \<open>split_text\<close>.
\<close>

definition split_documents :: "(string \<Rightarrow> string list) \<Rightarrow> document list \<Rightarrow> document list" where
  "split_documents splitter documents =
     concat (map (\<lambda>doc. map (\<lambda>chunk. \<lparr>page_content = chunk, metadata = metadata doc\<rparr>)
                              (splitter (page_content doc)))
                 documents)"

definition ingest_documents :: "ingest_env \<Rightarrow> string \<Rightarrow> exn + document list" where
  "ingest_documents env data_dir =
     (if \<not> path_exists env data_dir then Inr []
      else
        (case listdir env data_dir of
           Inl e \<Rightarrow> Inl e
         | Inr filenames \<Rightarrow>
             (let documents = ingest_files env data_dir filenames [];
                  chunked_docs = split_documents (split_text env) documents
              in Inr chunked_docs)))"

subsection \<open>vector\_store.py\<close>

text \<open>
  The Chroma store on disk is part of the world \<open>'w\<close>: whether the persistence directory
  exists, and the two ways a batch is written (\<open>Chroma.from_documents\<close>, and opening the
  store followed by \<open>add_documents\<close>). Each write may raise. \<open>get_embeddings\<close> is called
  once before the loop over the batches and outside its handlers; the run described here
  starts when the embedding client exists.
\<close>

record 'w chroma =
  persist_exists :: "'w \<Rightarrow> bool"
  from_documents :: "document list \<Rightarrow> 'w \<Rightarrow> 'w \<times> (exn + unit)"
  add_documents :: "document list \<Rightarrow> 'w \<Rightarrow> 'w \<times> (exn + unit)"

text \<open>
  What \<open>index_documents\<close> does, in order: the first write of the batch at offset \<open>i\<close>,
  the error logged when it fails, the sleep (in seconds), the second write, and the error
  logged when that fails too.
\<close>

datatype index_event =
    WriteBatch nat "document list"
  | ErrorLogged nat
  | Sleep nat
  | RetryBatch "document list"
  | RetryFailedLogged nat

definition BATCH_SIZE :: nat where
  "BATCH_SIZE = 32"

text \<open>
  The body of the \<open>try\<close>: the first batch creates the store with \<open>from_documents\<close> when
  the persistence directory does not exist yet; every other write opens the store and adds.
\<close>

definition write_batch :: "'w chroma \<Rightarrow> nat \<Rightarrow> document list \<Rightarrow> 'w \<Rightarrow> 'w \<times> (exn + unit)" where
  "write_batch db i batch w =
     (if i = 0 \<and> \<not> persist_exists db w then from_documents db batch w
      else add_documents db batch w)"

function index_from ::
    "'w chroma \<Rightarrow> document list \<Rightarrow> nat \<Rightarrow> 'w \<Rightarrow> 'w \<times> index_event list" where
  "index_from db documents i w =
     (if i < length documents then
        (let batch = take BATCH_SIZE (drop i documents) in
         case write_batch db i batch w of
           (w1, Inr u) \<Rightarrow>
             (case index_from db documents (i + BATCH_SIZE) w1 of
                (w', evs) \<Rightarrow> (w', WriteBatch i batch # evs))
         | (w1, Inl e) \<Rightarrow>
             (case add_documents db batch w1 of
                (w2, Inr u) \<Rightarrow>
                  (case index_from db documents (i + BATCH_SIZE) w2 of
                     (w', evs) \<Rightarrow>
                       (w', [WriteBatch i batch, ErrorLogged i, Sleep 5, RetryBatch batch] @ evs))
              | (w2, Inl e2) \<Rightarrow>
                  (case index_from db documents (i + BATCH_SIZE) w2 of
                     (w', evs) \<Rightarrow>
                       (w', [WriteBatch i batch, ErrorLogged i, Sleep 5, RetryBatch batch,
                             RetryFailedLogged i] @ evs))))
      else (w, []))"
  by pat_completeness auto
termination
  by (relation "measure (\<lambda>(db, documents, i, w). length documents - i)")
     (auto simp: BATCH_SIZE_def)

declare index_from.simps [simp del]

definition index_documents :: "'w chroma \<Rightarrow> document list \<Rightarrow> 'w \<Rightarrow> 'w \<times> index_event list" where
  "index_documents db documents w =
     (if documents = [] then (w, []) else index_from db documents 0 w)"

subsection \<open>main.py: the ingest branch\<close>

text \<open>
  The lines \<open>main\<close> itself prints when run with the ingest option, and the writes made to the
  store. The progress lines printed inside \<open>ingest_documents\<close> and \<open>index_documents\<close>, and the
  log records of \<open>ingest_documents\<close>, are not returned to any caller and are left out.
\<close>

definition main_ingest ::
    "ingest_env \<Rightarrow> 'w chroma \<Rightarrow> string \<Rightarrow> 'w \<Rightarrow> exn + (string list \<times> 'w \<times> index_event list)" where
  "main_ingest env db data_dir w =
     (case ingest_documents env data_dir of
        Inl e \<Rightarrow> Inl e
      | Inr docs \<Rightarrow>
          if docs \<noteq> [] then
            (case index_documents db docs w of
               (w', evs) \<Rightarrow>
                 Inr ([''Ingesting documents from '' @ data_dir @ ''...'',
                       ''Successfully indexed '' @ str_nat (length docs) @ '' chunks.''], w', evs))
          else
            Inr ([''Ingesting documents from '' @ data_dir @ ''...'',
                  ''No documents found or failed to load.''], w, []))"

subsection \<open>Reading the results\<close>

text \<open>
  How a file of the directory was loaded: by the PDF loader when its name ends in .pdf,
  otherwise by the CSV loader when its name ends in .csv.
\<close>

definition loaded_by :: "ingest_env \<Rightarrow> string \<Rightarrow> string \<Rightarrow> document list \<Rightarrow> bool" where
  "loaded_by env data_dir filename loaded_docs =
     ((endswith filename ''.pdf'' \<and> load_pdf env (path_join data_dir filename) = Inr loaded_docs)
      \<or> (\<not> endswith filename ''.pdf'' \<and> endswith filename ''.csv''
          \<and> load_csv env (path_join data_dir filename) = Inr loaded_docs))"


text \<open>The batches of the first writes, in the order they were made.\<close>

fun batches_written :: "index_event list \<Rightarrow> document list list" where
  "batches_written [] = []"
| "batches_written (WriteBatch i b # evs) = b # batches_written evs"
| "batches_written (ev # evs) = batches_written evs"

text \<open>The batches handed to the store by first and second writes, in order.\<close>

fun batches_sent :: "index_event list \<Rightarrow> document list list" where
  "batches_sent [] = []"
| "batches_sent (WriteBatch i b # evs) = b # batches_sent evs"
| "batches_sent (RetryBatch b # evs) = b # batches_sent evs"
| "batches_sent (ev # evs) = batches_sent evs"

text \<open>
  A store that behaves as a given store does and keeps, beside the world, the list of the
  batches it has received.
\<close>

definition recording :: "'w chroma \<Rightarrow> ('w \<times> document list list) chroma" where
  "recording db =
     \<lparr>persist_exists = (\<lambda>(w, received). persist_exists db w),
      from_documents = (\<lambda>batch (w, received).
         case from_documents db batch w of (w', r) \<Rightarrow> ((w', received @ [batch]), r)),
      add_documents = (\<lambda>batch (w, received).
         case add_documents db batch w of (w', r) \<Rightarrow> ((w', received @ [batch]), r))\<rparr>"

text \<open>
  The shape of a run of \<open>index_documents\<close>, batch after batch: a first write alone; or a
  first write, its error logged, a sleep of 5 seconds and one second write of the same batch;
  or all that followed by the logged failure of the second write.
\<close>

inductive retry_protocol :: "index_event list \<Rightarrow> bool" where
  finished: "retry_protocol []"
| written: "retry_protocol evs \<Longrightarrow> retry_protocol (WriteBatch i b # evs)"
| retried: "retry_protocol evs \<Longrightarrow>
            retry_protocol (WriteBatch i b # ErrorLogged i # Sleep 5 # RetryBatch b # evs)"
| lost: "retry_protocol evs \<Longrightarrow>
         retry_protocol (WriteBatch i b # ErrorLogged i # Sleep 5 # RetryBatch b
                           # RetryFailedLogged i # evs)"

code_pred retry_protocol .

subsection \<open>Example services and sessions\<close>

text \<open>
  Concrete services for evaluating the definitions: every call succeeds, the rephrasing
  model is unavailable, the index is unavailable.
\<close>

definition demo_services :: "unit services" where
  "demo_services =
     \<lparr>rephrase_chain = (\<lambda>q h w. (w, Inr ''standalone'')),
      retriever = (\<lambda>q w. (w, Inr [])),
      answer_chain = (\<lambda>q h c w. (w, Inr ''ANSWER''))\<rparr>"

definition rephrase_down :: "unit services" where
  "rephrase_down =
     demo_services\<lparr>rephrase_chain := (\<lambda>q h w. (w, Inl (Exception ''model unavailable'')))\<rparr>"

definition retriever_down :: "unit services" where
  "retriever_down =
     demo_services\<lparr>retriever := (\<lambda>q w. (w, Inl (Exception ''index unavailable'')))\<rparr>"

definition fresh_bot :: "unit MedicalChatbot" where
  "fresh_bot = \<lparr>chat_history = [], world = (), calls = []\<rparr>"

definition one_turn_bot :: "unit MedicalChatbot" where
  "one_turn_bot = \<lparr>chat_history = [(''hi'', ''hello'')], world = (), calls = []\<rparr>"

text \<open>
  Services whose world counts the calls made to them, so that a call that is made shows in
  the world returned; in the second one the rephrasing model raises.
\<close>

definition counting_services :: "nat services" where
  "counting_services =
     \<lparr>rephrase_chain = (\<lambda>q h w. (Suc w, Inr (''standalone: '' @ q))),
      retriever = (\<lambda>q w. (Suc w, Inr [])),
      answer_chain = (\<lambda>q h c w. (Suc w, Inr ''ANSWER''))\<rparr>"

definition counting_rephrase_down :: "nat services" where
  "counting_rephrase_down =
     counting_services\<lparr>rephrase_chain := (\<lambda>q h w. (Suc w, Inl (Exception ''model unavailable'')))\<rparr>"

text \<open>
  The cleaner of the examples. The call of \<open>clean\<close> in \<open>clean_text_content\<close> leaves the
  whitespace normalisation of the library switched on, which strips every line and turns
  every run of line breaks into one line break. On the texts of the examples (ASCII, no URL,
  single spaces inside the lines) that is all \<open>clean\<close> changes.
\<close>

definition demo_clean :: "string \<Rightarrow> exn + string" where
  "demo_clean t = Inr (join [newline] (filter (\<lambda>line. line \<noteq> []) (map strip (split_nl t))))"

text \<open>
  Concrete directories: one guideline PDF of one page (the scenario of the specification),
  a directory without files, a directory that does not exist, and a directory whose two
  files both fail to load. The splitter of the examples keeps a non-empty text whole.
\<close>

definition one_chunk :: "string \<Rightarrow> string list" where
  "one_chunk s = (if s = [] then [] else [s])"

definition a1c_page :: document where
  "a1c_page = \<lparr>page_content = ''Target A1C is 7%.'', metadata = [''page'' \<mapsto> MInt 0]\<rparr>"

definition guideline_dir :: ingest_env where
  "guideline_dir =
     \<lparr>path_exists = (\<lambda>p. True),
      listdir = (\<lambda>p. Inr [''guideline_diabetes.pdf'']),
      load_pdf = (\<lambda>p. Inr [a1c_page]),
      load_csv = (\<lambda>p. Inl (Exception ''not a table'')),
      clean = demo_clean,
      split_text = one_chunk\<rparr>"

definition empty_dir :: ingest_env where
  "empty_dir = guideline_dir\<lparr>listdir := (\<lambda>p. Inr [])\<rparr>"

definition missing_dir :: ingest_env where
  "missing_dir = guideline_dir\<lparr>path_exists := (\<lambda>p. False)\<rparr>"

definition broken_dir :: ingest_env where
  "broken_dir =
     guideline_dir\<lparr>listdir := (\<lambda>p. Inr [''guideline_diabetes.pdf'', ''faq.csv'']),
                   load_pdf := (\<lambda>p. Inl (Exception ''corrupt file''))\<rparr>"

definition a1c_chunk :: document where
  "a1c_chunk =
     \<lparr>page_content = ''Target A1C is 7%.'',
      metadata = metadata (stamp ''guideline_diabetes.pdf'' ''guideline'' 1 ''Target A1C is 7%.'' a1c_page)\<rparr>"

text \<open>
  An extracted page with a page number, a line of two spaces and two lines of text, and what
  the cleaner makes of it.
\<close>

definition dosage_page :: string where
  "dosage_page =
     ''Dosage table'' @ [newline] @ ''12'' @ [newline] @ ''  '' @ [newline] @ ''Take with food''"


text \<open>
  Concrete stores, the world being the number of writes made so far: one where every write
  succeeds, one where the first two writes raise.
\<close>

definition steady_store :: "nat chroma" where
  "steady_store =
     \<lparr>persist_exists = (\<lambda>w. True),
      from_documents = (\<lambda>batch w. (Suc w, Inr ())),
      add_documents = (\<lambda>batch w. (Suc w, Inr ()))\<rparr>"

definition flaky_store :: "nat chroma" where
  "flaky_store =
     \<lparr>persist_exists = (\<lambda>w. True),
      from_documents = (\<lambda>batch w. (Suc w, Inl (Exception ''timeout''))),
      add_documents = (\<lambda>batch w. (Suc w, if w < 2 then Inl (Exception ''timeout'') else Inr ()))\<rparr>"

definition blank_doc :: document where
  "blank_doc = \<lparr>page_content = ''text'', metadata = Map.empty\<rparr>"

definition flaky_events :: "index_event list" where
  "flaky_events =
     [WriteBatch 0 (replicate 32 blank_doc), ErrorLogged 0, Sleep 5,
      RetryBatch (replicate 32 blank_doc), RetryFailedLogged 0,
      WriteBatch 32 (replicate 8 blank_doc)]"

section \<open>The conversational path\<close>

lemma lc_history_of_Nil [simp]: "lc_history_of [] = []"
  by (simp add: lc_history_of_def)

lemma lc_history_of_eq_Nil [simp]: "(lc_history_of h = []) = (h = [])"
  by (cases h) (auto simp: lc_history_of_def)

text \<open>
  Claim C1, as amended. The rephrasing call is made inside \<open>_history_aware_retrieve\<close>
  without any handler of its own, so when it raises, the exception reaches the handler of
  \<open>get_answer\<close>: for a non-empty question asked with a non-empty history, the turn returns the
  fixed apologetic message, the only call made is the rephrasing call (no retrieval, no
  answer synthesis), and the history is left as it was.
\<close>

theorem rephrase_failure_apology:
  assumes "query \<noteq> []" and "chat_history self \<noteq> []"
    and "rephrase_chain svc query (lc_history_of (chat_history self)) (world self) = (w', Inl e)"
  shows "get_answer svc query self =
           (Inr apology,
            self\<lparr>world := w',
                 calls := calls self @ [RephraseCall query (lc_history_of (chat_history self))]\<rparr>)"
  using assms
  by (simp add: get_answer_def full_chain_def history_aware_retrieve_def)

theorem rephrase_failure_apology_witness:
  "''and the dose?'' \<noteq> [] \<and> chat_history one_turn_bot \<noteq> []
   \<and> rephrase_chain rephrase_down ''and the dose?'' (lc_history_of (chat_history one_turn_bot))
        (world one_turn_bot) = ((), Inl (Exception ''model unavailable''))
   \<and> get_answer rephrase_down ''and the dose?'' one_turn_bot =
           (Inr apology,
            one_turn_bot\<lparr>world := (),
                 calls := calls one_turn_bot @
                   [RephraseCall ''and the dose?'' (lc_history_of (chat_history one_turn_bot))]\<rparr>)"
proof -
  have h1: "''and the dose?'' \<noteq> []" by simp
  have h2: "chat_history one_turn_bot \<noteq> []" by (simp add: one_turn_bot_def)
  have h3: "rephrase_chain rephrase_down ''and the dose?'' (lc_history_of (chat_history one_turn_bot))
        (world one_turn_bot) = ((), Inl (Exception ''model unavailable''))"
    by (simp add: rephrase_down_def demo_services_def)
  show ?thesis using h1 h2 h3 rephrase_failure_apology [OF h1 h2 h3] by simp
qed

text \<open>
  Claim C1 as stated fails: with one earlier turn and a rephrasing model that raises, the
  answer is the apologetic message, not the answer of the answering chain, and the index is
  never queried with the original question.
\<close>

theorem rephrase_failure_counterexample:
  "get_answer rephrase_down ''and the dose?'' one_turn_bot =
     (Inr apology,
      one_turn_bot\<lparr>calls := [RephraseCall ''and the dose?'' [HumanMessage ''hi'', AIMessage ''hello'']]\<rparr>)
   \<and> apology \<noteq> ''ANSWER''"
  by (simp add: get_answer_def full_chain_def history_aware_retrieve_def rephrase_down_def
      demo_services_def one_turn_bot_def lc_history_of_def apology_def)

text \<open>
  Claim C2, as amended. A query of the index that raises is not turned into an empty result:
  the exception reaches the handler of \<open>get_answer\<close>, the turn returns the fixed apologetic
  message, the answering chain is not called and the history is left as it was. This holds
  when the history is empty (the index is queried with the question) and when it is not
  (the index is queried with the rephrased question).
\<close>

theorem retrieval_failure_apology:
  "(query \<noteq> [] \<and> chat_history self = []
      \<and> retriever svc query (world self) = (w', Inl e)
    \<longrightarrow> get_answer svc query self =
          (Inr apology, self\<lparr>world := w', calls := calls self @ [RetrieveCall query]\<rparr>))
   \<and> (query \<noteq> [] \<and> chat_history self \<noteq> []
      \<and> rephrase_chain svc query (lc_history_of (chat_history self)) (world self) = (w1, Inr question')
      \<and> retriever svc question' w1 = (w', Inl e)
    \<longrightarrow> get_answer svc query self =
          (Inr apology,
           self\<lparr>world := w',
                calls := calls self @ [RephraseCall query (lc_history_of (chat_history self)),
                                       RetrieveCall question']\<rparr>))"
  by (simp add: get_answer_def full_chain_def history_aware_retrieve_def)

theorem retrieval_failure_apology_witness:
  "(''what is the dose?'' \<noteq> [] \<and> chat_history fresh_bot = []
      \<and> retriever retriever_down ''what is the dose?'' (world fresh_bot) =
          ((), Inl (Exception ''index unavailable'')))
   \<and> get_answer retriever_down ''what is the dose?'' fresh_bot =
          (Inr apology,
           fresh_bot\<lparr>world := (), calls := calls fresh_bot @ [RetrieveCall ''what is the dose?'']\<rparr>)
   \<and> (''and the dose?'' \<noteq> [] \<and> chat_history one_turn_bot \<noteq> []
      \<and> rephrase_chain retriever_down ''and the dose?'' (lc_history_of (chat_history one_turn_bot))
          (world one_turn_bot) = ((), Inr ''standalone'')
      \<and> retriever retriever_down ''standalone'' () = ((), Inl (Exception ''index unavailable'')))
   \<and> get_answer retriever_down ''and the dose?'' one_turn_bot =
          (Inr apology,
           one_turn_bot\<lparr>world := (),
                calls := calls one_turn_bot @
                  [RephraseCall ''and the dose?'' (lc_history_of (chat_history one_turn_bot)),
                   RetrieveCall ''standalone'']\<rparr>)"
  using retrieval_failure_apology [where query = "''what is the dose?''" and self = fresh_bot
          and svc = retriever_down and w' = "()" and e = "Exception ''index unavailable''"
          and ?w1.0 = "()" and question' = "''standalone''"]
        retrieval_failure_apology [where query = "''and the dose?''" and self = one_turn_bot
          and svc = retriever_down and w' = "()" and e = "Exception ''index unavailable''"
          and ?w1.0 = "()" and question' = "''standalone''"]
  by (simp add: retriever_down_def demo_services_def fresh_bot_def one_turn_bot_def)

text \<open>
  Claim C2 as stated fails: on a first question with the index unavailable, the answer is the
  apologetic message and no answer synthesis takes place.
\<close>

theorem retrieval_failure_counterexample:
  "get_answer retriever_down ''what is the dose?'' fresh_bot =
     (Inr apology, fresh_bot\<lparr>calls := [RetrieveCall ''what is the dose?'']\<rparr>)
   \<and> apology \<noteq> ''ANSWER''"
  by (simp add: get_answer_def full_chain_def history_aware_retrieve_def retriever_down_def
      demo_services_def fresh_bot_def lc_history_of_def apology_def)

text \<open>
  Claim C3. Whatever the question and whatever the services do (return or raise, at the
  rephrasing, retrieval or answering step), \<open>get_answer\<close> returns a string and never an
  exception, and the history afterwards is either the history before or the history before
  followed by the one turn (question, returned answer). When the chain succeeds the turn
  is appended and its answer returned; when anything in the chain raises the history is
  unchanged and the apologetic message is returned.
\<close>

theorem get_answer_never_raises_atomic:
  "(\<exists>answer. fst (get_answer svc query self) = Inr answer
      \<and> (chat_history (snd (get_answer svc query self)) = chat_history self
         \<or> chat_history (snd (get_answer svc query self)) = chat_history self @ [(query, answer)]))
   \<and> (query \<noteq> []
        \<and> full_chain svc \<lparr>inp_input = query, inp_chat_history = lc_history_of (chat_history self)\<rparr>
             (world self, calls self) = (st', Inr response)
      \<longrightarrow> fst (get_answer svc query self) = Inr (out_answer response)
          \<and> chat_history (snd (get_answer svc query self)) =
              chat_history self @ [(query, out_answer response)])
   \<and> (query \<noteq> []
        \<and> full_chain svc \<lparr>inp_input = query, inp_chat_history = lc_history_of (chat_history self)\<rparr>
             (world self, calls self) = (st', Inl e)
      \<longrightarrow> fst (get_answer svc query self) = Inr apology
          \<and> chat_history (snd (get_answer svc query self)) = chat_history self)"
  by (auto simp: get_answer_def Let_def split: prod.splits sum.splits)

theorem get_answer_never_raises_atomic_witness:
  "(\<exists>answer. fst (get_answer demo_services ''and the dose?'' one_turn_bot) = Inr answer
      \<and> (chat_history (snd (get_answer demo_services ''and the dose?'' one_turn_bot)) = chat_history one_turn_bot
         \<or> chat_history (snd (get_answer demo_services ''and the dose?'' one_turn_bot)) =
             chat_history one_turn_bot @ [(''and the dose?'', answer)]))
   \<and> (''and the dose?'' \<noteq> []
        \<and> full_chain demo_services
             \<lparr>inp_input = ''and the dose?'', inp_chat_history = lc_history_of (chat_history one_turn_bot)\<rparr>
             (world one_turn_bot, calls one_turn_bot) =
           (((), [RephraseCall ''and the dose?'' [HumanMessage ''hi'', AIMessage ''hello''],
                  RetrieveCall ''standalone'',
                  AnswerCall ''and the dose?'' [HumanMessage ''hi'', AIMessage ''hello''] []]),
            Inr \<lparr>out_input = ''and the dose?'',
                 out_chat_history = [HumanMessage ''hi'', AIMessage ''hello''],
                 out_context = [], out_answer = ''ANSWER''\<rparr>))
   \<and> fst (get_answer demo_services ''and the dose?'' one_turn_bot) = Inr ''ANSWER''
   \<and> chat_history (snd (get_answer demo_services ''and the dose?'' one_turn_bot)) =
        [(''hi'', ''hello''), (''and the dose?'', ''ANSWER'')]
   \<and> (''and the dose?'' \<noteq> []
        \<and> full_chain retriever_down
             \<lparr>inp_input = ''and the dose?'', inp_chat_history = lc_history_of (chat_history one_turn_bot)\<rparr>
             (world one_turn_bot, calls one_turn_bot) =
           (((), [RephraseCall ''and the dose?'' [HumanMessage ''hi'', AIMessage ''hello''],
                  RetrieveCall ''standalone'']),
            Inl (Exception ''index unavailable'')))
   \<and> fst (get_answer retriever_down ''and the dose?'' one_turn_bot) = Inr apology
   \<and> chat_history (snd (get_answer retriever_down ''and the dose?'' one_turn_bot)) = [(''hi'', ''hello'')]"
proof -
  have ok: "full_chain demo_services
             \<lparr>inp_input = ''and the dose?'', inp_chat_history = lc_history_of (chat_history one_turn_bot)\<rparr>
             (world one_turn_bot, calls one_turn_bot) =
           (((), [RephraseCall ''and the dose?'' [HumanMessage ''hi'', AIMessage ''hello''],
                  RetrieveCall ''standalone'',
                  AnswerCall ''and the dose?'' [HumanMessage ''hi'', AIMessage ''hello''] []]),
            Inr \<lparr>out_input = ''and the dose?'',
                 out_chat_history = [HumanMessage ''hi'', AIMessage ''hello''],
                 out_context = [], out_answer = ''ANSWER''\<rparr>)"
    by (simp add: full_chain_def history_aware_retrieve_def demo_services_def one_turn_bot_def
        lc_history_of_def format_docs_def)
  have bad: "full_chain retriever_down
             \<lparr>inp_input = ''and the dose?'', inp_chat_history = lc_history_of (chat_history one_turn_bot)\<rparr>
             (world one_turn_bot, calls one_turn_bot) =
           (((), [RephraseCall ''and the dose?'' [HumanMessage ''hi'', AIMessage ''hello''],
                  RetrieveCall ''standalone'']),
            Inl (Exception ''index unavailable''))"
    by (simp add: full_chain_def history_aware_retrieve_def retriever_down_def demo_services_def
        one_turn_bot_def lc_history_of_def)
  have hist: "chat_history one_turn_bot = [(''hi'', ''hello'')]"
    by (simp add: one_turn_bot_def)
  show ?thesis
    using ok bad hist
      get_answer_never_raises_atomic [where svc = demo_services and query = "''and the dose?''"
        and self = one_turn_bot and response = "\<lparr>out_input = ''and the dose?'',
                 out_chat_history = [HumanMessage ''hi'', AIMessage ''hello''],
                 out_context = [], out_answer = ''ANSWER''\<rparr>"
        and st' = "((), [RephraseCall ''and the dose?'' [HumanMessage ''hi'', AIMessage ''hello''],
                  RetrieveCall ''standalone'',
                  AnswerCall ''and the dose?'' [HumanMessage ''hi'', AIMessage ''hello''] []])"]
      get_answer_never_raises_atomic [where svc = retriever_down and query = "''and the dose?''"
        and self = one_turn_bot and e = "Exception ''index unavailable''"
        and st' = "((), [RephraseCall ''and the dose?'' [HumanMessage ''hi'', AIMessage ''hello''],
                  RetrieveCall ''standalone''])"]
    by simp
qed

lemma get_answer_after_clear:
  assumes "query \<noteq> []"
  shows "\<exists>rest. calls (snd (get_answer svc query (clear_history b))) = calls b @ RetrieveCall query # rest
            \<and> (rest = [] \<or> (\<exists>ctx. rest = [AnswerCall query [] ctx]))"
  using assms
  by (auto simp: get_answer_def clear_history_def full_chain_def history_aware_retrieve_def Let_def
      split: prod.splits sum.splits)

text \<open>
  Claim C6. An empty question returns the empty string and leaves the whole session as it
  was: history, world and recorded calls (so no model or retrieval call is made). After
  \<open>clear_history\<close>, following any sequence of questions asked before, the history is empty
  and the next non-empty question takes the empty-history path: the first call it makes is
  the retrieval with the question unchanged, no rephrasing call is made, and the answering
  chain, when reached, receives an empty history.
\<close>

theorem empty_question_and_reset:
  "get_answer svc [] self = (Inr [], self)
   \<and> chat_history (clear_history (ask_all svc qs self)) = []
   \<and> (query \<noteq> [] \<longrightarrow>
        (\<exists>rest. calls (snd (get_answer svc query (clear_history (ask_all svc qs self)))) =
                  calls (ask_all svc qs self) @ RetrieveCall query # rest
              \<and> (rest = [] \<or> (\<exists>ctx. rest = [AnswerCall query [] ctx]))))"
  using get_answer_after_clear [of query svc "ask_all svc qs self"]
  by (simp add: get_answer_def clear_history_def)

theorem empty_question_and_reset_witness:
  "get_answer demo_services [] fresh_bot = (Inr [], fresh_bot)
   \<and> chat_history (clear_history (ask_all demo_services [''what is the dose?'', ''and for children?''] fresh_bot)) = []
   \<and> ''again?'' \<noteq> []
   \<and> (\<exists>rest. calls (snd (get_answer demo_services ''again?''
                  (clear_history (ask_all demo_services [''what is the dose?'', ''and for children?''] fresh_bot)))) =
                  calls (ask_all demo_services [''what is the dose?'', ''and for children?''] fresh_bot)
                    @ RetrieveCall ''again?'' # rest
              \<and> (rest = [] \<or> (\<exists>ctx. rest = [AnswerCall ''again?'' [] ctx])))
   \<and> length (chat_history (ask_all demo_services [''what is the dose?'', ''and for children?''] fresh_bot)) = 2"
proof -
  have n: "length (chat_history (ask_all demo_services [''what is the dose?'', ''and for children?''] fresh_bot)) = 2"
    by (simp add: get_answer_def full_chain_def history_aware_retrieve_def demo_services_def
        fresh_bot_def lc_history_of_def Let_def)
  show ?thesis
    using n empty_question_and_reset [where svc = demo_services and self = fresh_bot
        and qs = "[''what is the dose?'', ''and for children?'']" and query = "''again?''"]
    by simp
qed

text \<open>
  Claim C7. With an empty history, \<open>_history_aware_retrieve\<close> makes exactly one call, the
  retrieval with the question unchanged, and returns its result and its world; no rephrasing
  call is made. With a non-empty history the rephrasing chain is invoked on the question and
  the history, in the world as it is: when it raises, its exception and its world are what
  comes back and nothing else is called; when it returns a question, the retrieval is made
  with that question in the world the rephrasing left, and its result and world come back.
\<close>

theorem history_aware_retrieve_rewrite:
  "(inp_chat_history inp = [] \<longrightarrow>
      history_aware_retrieve svc inp (w, log) =
        ((fst (retriever svc (inp_input inp) w), log @ [RetrieveCall (inp_input inp)]),
         snd (retriever svc (inp_input inp) w)))
   \<and> (inp_chat_history inp \<noteq> []
        \<and> rephrase_chain svc (inp_input inp) (inp_chat_history inp) w = (w1, Inl e) \<longrightarrow>
      history_aware_retrieve svc inp (w, log) =
        ((w1, log @ [RephraseCall (inp_input inp) (inp_chat_history inp)]), Inl e))
   \<and> (inp_chat_history inp \<noteq> []
        \<and> rephrase_chain svc (inp_input inp) (inp_chat_history inp) w = (w1, Inr question') \<longrightarrow>
      history_aware_retrieve svc inp (w, log) =
        ((fst (retriever svc question' w1),
          log @ [RephraseCall (inp_input inp) (inp_chat_history inp), RetrieveCall question']),
         snd (retriever svc question' w1)))"
  by (auto simp: history_aware_retrieve_def Let_def split: prod.splits sum.splits)

theorem history_aware_retrieve_rewrite_witness:
  "inp_chat_history \<lparr>inp_input = ''q'', inp_chat_history = []\<rparr> = []
   \<and> history_aware_retrieve counting_services \<lparr>inp_input = ''q'', inp_chat_history = []\<rparr> (0, []) =
       ((1, [RetrieveCall ''q'']), Inr [])
   \<and> (inp_chat_history \<lparr>inp_input = ''q'', inp_chat_history = [HumanMessage ''a'', AIMessage ''b'']\<rparr> \<noteq> []
       \<and> rephrase_chain counting_rephrase_down ''q'' [HumanMessage ''a'', AIMessage ''b''] 0 =
           (1, Inl (Exception ''model unavailable'')))
   \<and> history_aware_retrieve counting_rephrase_down
         \<lparr>inp_input = ''q'', inp_chat_history = [HumanMessage ''a'', AIMessage ''b'']\<rparr> (0, []) =
       ((1, [RephraseCall ''q'' [HumanMessage ''a'', AIMessage ''b'']]),
        Inl (Exception ''model unavailable''))
   \<and> rephrase_chain counting_services ''q'' [HumanMessage ''a'', AIMessage ''b''] 0 =
        (1, Inr ''standalone: q'')
   \<and> history_aware_retrieve counting_services
         \<lparr>inp_input = ''q'', inp_chat_history = [HumanMessage ''a'', AIMessage ''b'']\<rparr> (0, []) =
       ((2, [RephraseCall ''q'' [HumanMessage ''a'', AIMessage ''b''], RetrieveCall ''standalone: q'']),
        Inr [])"
proof -
  have down: "rephrase_chain counting_rephrase_down ''q'' [HumanMessage ''a'', AIMessage ''b''] 0 =
           (1, Inl (Exception ''model unavailable''))"
    by (simp add: counting_rephrase_down_def counting_services_def)
  have up: "rephrase_chain counting_services ''q'' [HumanMessage ''a'', AIMessage ''b''] 0 =
        (1, Inr ''standalone: q'')"
    by (simp add: counting_services_def)
  have found: "retriever counting_services ''q'' 0 = (1, Inr [])"
      "retriever counting_services ''standalone: q'' 1 = (2, Inr [])"
    by (simp_all add: counting_services_def)
  show ?thesis
    using down up found
      history_aware_retrieve_rewrite [where inp = "\<lparr>inp_input = ''q'', inp_chat_history = []\<rparr>"
        and svc = counting_services and w = 0 and log = "[]"]
      history_aware_retrieve_rewrite [where
        inp = "\<lparr>inp_input = ''q'', inp_chat_history = [HumanMessage ''a'', AIMessage ''b'']\<rparr>"
        and svc = counting_rephrase_down and w = 0 and log = "[]" and ?w1.0 = 1
        and e = "Exception ''model unavailable''"]
      history_aware_retrieve_rewrite [where
        inp = "\<lparr>inp_input = ''q'', inp_chat_history = [HumanMessage ''a'', AIMessage ''b'']\<rparr>"
        and svc = counting_services and w = 0 and log = "[]" and ?w1.0 = 1
        and question' = "''standalone: q''"]
    by simp
qed

section \<open>Ingestion\<close>

subsection \<open>Strings\<close>

lemma str_in_iff: "str_in sub s \<longleftrightarrow> (\<exists>pre post. s = pre @ sub @ post)"
proof (induction s)
  case Nil
  then show ?case by auto
next
  case (Cons c cs)
  show ?case
  proof
    assume "str_in sub (c # cs)"
    then consider "prefix sub (c # cs)" | "str_in sub cs" by auto
    then show "\<exists>pre post. c # cs = pre @ sub @ post"
    proof cases
      case 1
      then obtain post where "c # cs = sub @ post" by (auto simp: prefix_def)
      then have "c # cs = [] @ sub @ post" by simp
      then show ?thesis by blast
    next
      case 2
      with Cons.IH obtain pre post where "cs = pre @ sub @ post" by blast
      then have "c # cs = (c # pre) @ sub @ post" by simp
      then show ?thesis by blast
    qed
  next
    assume "\<exists>pre post. c # cs = pre @ sub @ post"
    then obtain pre post where eq: "c # cs = pre @ sub @ post" by blast
    show "str_in sub (c # cs)"
    proof (cases pre)
      case Nil
      with eq have "prefix sub (c # cs)" by (simp add: prefix_def)
      then show ?thesis by simp
    next
      case (Cons p pre')
      with eq have "cs = pre' @ sub @ post" by simp
      with Cons.IH have "str_in sub cs" by blast
      then show ?thesis by simp
    qed
  qed
qed

lemma endswith_iff: "endswith s suf \<longleftrightarrow> (\<exists>stem. s = stem @ suf)"
  by (simp add: endswith_def suffix_def)

lemma split_nl_not_Nil [simp]: "split_nl s \<noteq> []"
  by (induction s) (auto split: list.splits)

lemma split_nl_no_newline: "l \<in> set (split_nl s) \<Longrightarrow> newline \<notin> set l"
proof (induction s arbitrary: l)
  case Nil
  then show ?case by simp
next
  case (Cons c cs)
  then show ?case
    by (cases "split_nl cs") (auto split: if_splits)
qed

lemma split_nl_line: "newline \<notin> set l \<Longrightarrow> split_nl l = [l]"
  by (induction l) auto

lemma split_nl_append:
  "newline \<notin> set l \<Longrightarrow> split_nl (l @ newline # s) = l # split_nl s"
  by (induction l) auto

lemma split_nl_join:
  "ls \<noteq> [] \<Longrightarrow> (\<And>l. l \<in> set ls \<Longrightarrow> newline \<notin> set l) \<Longrightarrow> split_nl (join [newline] ls) = ls"
proof (induction ls)
  case Nil
  then show ?case by simp
next
  case (Cons x xs)
  show ?case
  proof (cases xs)
    case Nil
    with Cons.prems show ?thesis by (simp add: split_nl_line)
  next
    case (Cons y ys)
    with Cons.IH Cons.prems have "split_nl (join [newline] xs) = xs" by simp
    with Cons Cons.prems show ?thesis by (simp add: split_nl_append)
  qed
qed

lemma join_split_nl: "join [newline] (split_nl s) = s"
proof (induction s)
  case Nil
  then show ?case by simp
next
  case (Cons c cs)
  then show ?case
    by (cases "split_nl cs"; cases "tl (split_nl cs)") auto
qed


subsection \<open>Classification by file name\<close>

text \<open>
  Claim C5, as amended. For every file path, \<open>determine_metadata\<close> looks at the lower-cased
  base name: containing "guideline" gives (guideline, 1); otherwise containing "textbook"
  gives (textbook, 2); otherwise containing "faq", or the path as given ending in ".csv"
  (this test is made on the path itself, so it is case-sensitive), gives (faq, 3);
  otherwise the default (textbook, 2).
\<close>

theorem determine_metadata_classification:
  "determine_metadata file_path =
     (if \<exists>pre post. lower (basename file_path) = pre @ ''guideline'' @ post then (''guideline'', 1)
      else if \<exists>pre post. lower (basename file_path) = pre @ ''textbook'' @ post then (''textbook'', 2)
      else if (\<exists>pre post. lower (basename file_path) = pre @ ''faq'' @ post)
              \<or> (\<exists>stem. file_path = stem @ ''.csv'') then (''faq'', 3)
      else (''textbook'', 2))"
  unfolding determine_metadata_def Let_def str_in_iff endswith_iff by simp

lemma determine_metadata_examples:
  "determine_metadata ''data/WHO_Guideline_2023.pdf'' = (''guideline'', 1)"
  "determine_metadata ''data/guideline_textbook.pdf'' = (''guideline'', 1)"
  "determine_metadata ''data/Harrison_Textbook.pdf'' = (''textbook'', 2)"
  "determine_metadata ''data/patient_FAQ.pdf'' = (''faq'', 3)"
  "determine_metadata ''data/questions.csv'' = (''faq'', 3)"
  "determine_metadata ''data/notes.pdf'' = (''textbook'', 2)"
  by code_simp+

text \<open>
  Claim C5 as stated fails: a file with the extension in capitals, whose lower-cased name
  does end in ".csv", is classified by the default and not as a FAQ.
\<close>

theorem csv_extension_counterexample:
  "determine_metadata ''data/NOTES.CSV'' = (''textbook'', 2)
   \<and> endswith (lower ''data/NOTES.CSV'') ''.csv''"
  by code_simp

subsection \<open>The post-pass of the normalizer\<close>

lemma strip_Nil [simp]: "strip [] = []"
  by (simp add: strip_def)











text \<open>
  A cleaner that strips every line and removes the empty ones, as the cleaner of the examples
  does, returns on every text a text without a non-empty line of whitespace only.
\<close>

lemma dropWhile_id: "xs = [] \<or> \<not> P (hd xs) \<Longrightarrow> dropWhile P xs = xs"
  by (cases xs) auto

lemma dropWhile_hd: "dropWhile P xs = [] \<or> \<not> P (hd (dropWhile P xs))"
  by (induction xs) auto

lemma last_dropWhile: "dropWhile P xs \<noteq> [] \<Longrightarrow> last (dropWhile P xs) = last xs"
  by (induction xs) (auto split: if_splits)

lemma strip_strip: "strip (strip s) = strip s"
proof -
  define a where "a = dropWhile isspace s"
  define r where "r = dropWhile isspace (rev a)"
  have strip: "strip s = rev r" by (simp add: strip_def a_def r_def)
  show ?thesis
  proof (cases "r = []")
    case True
    with strip have "strip s = []" by simp
    then show ?thesis by simp
  next
    case False
    then have "rev a \<noteq> []" unfolding r_def by fastforce
    then have a_ne: "a \<noteq> []" by simp
    have "\<not> isspace (hd a)"
      using dropWhile_hd [of isspace s] a_ne unfolding a_def by blast
    moreover have "last r = last (rev a)"
      using False last_dropWhile [of isspace "rev a"] unfolding r_def by blast
    moreover have "last (rev a) = hd a" using a_ne by (simp add: last_rev)
    ultimately have "\<not> isspace (last r)" by simp
    then have "\<not> isspace (hd (rev r))" using False by (simp add: hd_rev)
    then have 1: "dropWhile isspace (rev r) = rev r" by (intro dropWhile_id) simp
    have "\<not> isspace (hd r)"
      using dropWhile_hd [of isspace "rev a"] False unfolding r_def by blast
    then have 2: "dropWhile isspace r = r" by (intro dropWhile_id) simp
    show ?thesis unfolding strip by (simp add: strip_def 1 2)
  qed
qed

lemma strip_subset: "set (strip s) \<subseteq> set s"
  by (auto simp: strip_def dest!: set_dropWhileD)

lemma demo_clean_no_blank:
  assumes "demo_clean raw_text = Inr cleaned"
  shows "filter (\<lambda>line. strip line = [] \<and> line \<noteq> []) (split_nl cleaned) = []"
proof -
  let ?ls = "filter (\<lambda>line. line \<noteq> []) (map strip (split_nl raw_text))"
  from assms have c: "cleaned = join [newline] ?ls" by (simp add: demo_clean_def)
  show ?thesis
  proof (cases "?ls = []")
    case True
    with c show ?thesis by simp
  next
    case False
    have nl: "\<And>l. l \<in> set ?ls \<Longrightarrow> newline \<notin> set l"
      using split_nl_no_newline strip_subset by fastforce
    from False nl have lines: "split_nl cleaned = ?ls" unfolding c by (rule split_nl_join)
    have "\<And>l. l \<in> set ?ls \<Longrightarrow> strip l \<noteq> []"
      by (auto simp: strip_strip)
    then show ?thesis unfolding lines by (auto simp: filter_empty_conv)
  qed
qed

text \<open>
  The hypothesis on the cleaned text is needed: taken alone, on a text that \<open>clean\<close> never
  returns, the post-pass keeps a line of two spaces, because it exempts every line whose
  trimmed form is empty.
\<close>

lemma post_pass_on_blank_line:
  "split_nl (drop_short_lines dosage_page) = [''Dosage table'', ''  '', ''Take with food'']"
  by code_simp

subsection \<open>Metadata of the chunks\<close>

lemma stamp_metadata:
  "metadata (stamp filename doc_type rank content doc) ''source'' = Some (MStr filename)"
  "metadata (stamp filename doc_type rank content doc) ''type'' = Some (MStr doc_type)"
  "metadata (stamp filename doc_type rank content doc) ''rank'' = Some (MInt rank)"
  "metadata (stamp filename doc_type rank content doc) ''page'' =
     Some (case metadata doc ''page'' of None \<Rightarrow> MStr ''N/A'' | Some p \<Rightarrow> p)"
  "page_content (stamp filename doc_type rank content doc) = content"
  by (auto simp: stamp_def Let_def split: option.splits)

lemma stamp_docs_mem:
  "d \<in> set (stamp_docs env filename doc_type rank loaded_docs documents) \<Longrightarrow>
     d \<in> set documents
     \<or> (\<exists>doc content. doc \<in> set loaded_docs
           \<and> clean_text_content env (page_content doc) = Inr content
           \<and> d = stamp filename doc_type rank content doc)"
proof (induction loaded_docs arbitrary: documents)
  case Nil
  then show ?case by simp
next
  case (Cons doc rest)
  show ?case
  proof (cases "clean_text_content env (page_content doc)")
    case (Inl e)
    with Cons.prems show ?thesis by simp
  next
    case (Inr content)
    with Cons.prems
    have "d \<in> set (stamp_docs env filename doc_type rank rest
                      (documents @ [stamp filename doc_type rank content doc]))"
      by simp
    from Cons.IH [OF this] Inr show ?thesis by auto
  qed
qed

lemma ingest_files_mem:
  "d \<in> set (ingest_files env data_dir filenames documents) \<Longrightarrow>
     d \<in> set documents
     \<or> (\<exists>filename loaded_docs doc content.
           filename \<in> set filenames \<and> loaded_by env data_dir filename loaded_docs
           \<and> doc \<in> set loaded_docs
           \<and> clean_text_content env (page_content doc) = Inr content
           \<and> d = stamp filename (fst (determine_metadata (path_join data_dir filename)))
                    (snd (determine_metadata (path_join data_dir filename))) content doc)"
proof (induction filenames arbitrary: documents)
  case Nil
  then show ?case by simp
next
  case (Cons filename rest)
  obtain doc_type rank where dm: "determine_metadata (path_join data_dir filename) = (doc_type, rank)"
    by (cases "determine_metadata (path_join data_dir filename)")
  consider (pdf) loaded_docs where "loaded_by env data_dir filename loaded_docs"
      "ingest_files env data_dir (filename # rest) documents =
         ingest_files env data_dir rest (stamp_docs env filename doc_type rank loaded_docs documents)"
    | (skip) "ingest_files env data_dir (filename # rest) documents =
         ingest_files env data_dir rest documents"
  proof (cases "endswith filename ''.pdf''")
    case True
    show ?thesis
    proof (cases "load_pdf env (path_join data_dir filename)")
      case (Inl e)
      with True dm show ?thesis by (intro skip) simp
    next
      case (Inr loaded_docs)
      with True dm show ?thesis
        by (intro pdf [of loaded_docs]) (simp_all add: loaded_by_def)
    qed
  next
    case False
    show ?thesis
    proof (cases "endswith filename ''.csv''")
      case no_csv: False
      with False dm show ?thesis by (intro skip) simp
    next
      case is_csv: True
      show ?thesis
      proof (cases "load_csv env (path_join data_dir filename)")
        case (Inl e)
        with False is_csv dm show ?thesis by (intro skip) simp
      next
        case (Inr loaded_docs)
        with False is_csv dm show ?thesis
          by (intro pdf [of loaded_docs]) (simp_all add: loaded_by_def)
      qed
    qed
  qed
  then show ?case
  proof cases
    case pdf
    with Cons.prems
    have "d \<in> set (ingest_files env data_dir rest
                      (stamp_docs env filename doc_type rank loaded_docs documents))"
      by simp
    from Cons.IH [OF this] show ?thesis
    proof
      assume "d \<in> set (stamp_docs env filename doc_type rank loaded_docs documents)"
      from stamp_docs_mem [OF this] show ?thesis
      proof
        assume "d \<in> set documents"
        then show ?thesis by simp
      next
        assume "\<exists>doc content. doc \<in> set loaded_docs
           \<and> clean_text_content env (page_content doc) = Inr content
           \<and> d = stamp filename doc_type rank content doc"
        then obtain doc content where dc: "doc \<in> set loaded_docs"
            "clean_text_content env (page_content doc) = Inr content"
            "d = stamp filename doc_type rank content doc"
          by blast
        from dc(3) dm
        have "d = stamp filename (fst (determine_metadata (path_join data_dir filename)))
                    (snd (determine_metadata (path_join data_dir filename))) content doc"
          by simp
        moreover have "filename \<in> set (filename # rest)" by simp
        ultimately show ?thesis using pdf(1) dc(1,2) by blast
      qed
    next
      assume "\<exists>filename loaded_docs doc content.
           filename \<in> set rest \<and> loaded_by env data_dir filename loaded_docs
           \<and> doc \<in> set loaded_docs
           \<and> clean_text_content env (page_content doc) = Inr content
           \<and> d = stamp filename (fst (determine_metadata (path_join data_dir filename)))
                    (snd (determine_metadata (path_join data_dir filename))) content doc"
      then show ?thesis by auto
    qed
  next
    case skip
    with Cons.prems have "d \<in> set (ingest_files env data_dir rest documents)" by simp
    from Cons.IH [OF this] show ?thesis by auto
  qed
qed

lemma split_documents_mem:
  "c \<in> set (split_documents splitter documents) \<Longrightarrow>
     \<exists>d \<in> set documents. metadata c = metadata d \<and> page_content c \<in> set (splitter (page_content d))"
  by (auto simp: split_documents_def)

lemma guideline_path: "path_join ''data'' ''guideline_diabetes.pdf'' = ''data/guideline_diabetes.pdf''"
  by code_simp

lemma guideline_class: "determine_metadata ''data/guideline_diabetes.pdf'' = (''guideline'', 1)"
  by code_simp

lemma guideline_pdf: "endswith ''guideline_diabetes.pdf'' ''.pdf''"
  by code_simp

lemma faq_path: "path_join ''data'' ''faq.csv'' = ''data/faq.csv''"
  by code_simp

lemma faq_csv: "\<not> endswith ''faq.csv'' ''.pdf''" "endswith ''faq.csv'' ''.csv''"
  by code_simp+

lemma a1c_line:
  "clean_text_content guideline_dir ''Target A1C is 7%.'' = Inr ''Target A1C is 7%.''"
  by code_simp

lemma guideline_dir_chunks: "ingest_documents guideline_dir ''data'' = Inr [a1c_chunk]"
proof -
  have fields: "path_exists guideline_dir ''data''"
      "listdir guideline_dir ''data'' = Inr [''guideline_diabetes.pdf'']"
      "load_pdf guideline_dir ''data/guideline_diabetes.pdf'' = Inr [a1c_page]"
      "split_text guideline_dir = one_chunk"
    by (simp_all add: guideline_dir_def)
  have page: "page_content a1c_page = ''Target A1C is 7%.''"
    by (simp add: a1c_page_def)
  show ?thesis
    by (simp add: ingest_documents_def fields guideline_path guideline_class guideline_pdf
        page a1c_line a1c_chunk_def split_documents_def one_chunk_def stamp_metadata)
qed

text \<open>
  Claim C4. Every chunk returned by \<open>ingest_documents\<close> comes from a document that a
  loader returned for a file of the directory, and carries the metadata stamped on that
  document before chunking: the source is the file name, type and rank are the
  classification of the file's path by \<open>determine_metadata\<close>, and the page is the loader's
  page, or N/A when the loader gave none. The text of the chunk is a piece of the cleaned
  text of that document.
\<close>

theorem chunk_metadata_from_file:
  assumes "ingest_documents env data_dir = Inr chunks" and "c \<in> set chunks"
  shows "\<exists>filenames filename loaded_docs doc content.
           listdir env data_dir = Inr filenames \<and> filename \<in> set filenames
           \<and> loaded_by env data_dir filename loaded_docs \<and> doc \<in> set loaded_docs
           \<and> clean_text_content env (page_content doc) = Inr content
           \<and> page_content c \<in> set (split_text env content)
           \<and> metadata c = metadata (stamp filename (fst (determine_metadata (path_join data_dir filename)))
                                      (snd (determine_metadata (path_join data_dir filename))) content doc)
           \<and> metadata c ''source'' = Some (MStr filename)
           \<and> metadata c ''type'' = Some (MStr (fst (determine_metadata (path_join data_dir filename))))
           \<and> metadata c ''rank'' = Some (MInt (snd (determine_metadata (path_join data_dir filename))))
           \<and> metadata c ''page'' = Some (case metadata doc ''page'' of None \<Rightarrow> MStr ''N/A'' | Some p \<Rightarrow> p)"
proof -
  from assms obtain filenames where names: "listdir env data_dir = Inr filenames"
    and chunks: "chunks = split_documents (split_text env) (ingest_files env data_dir filenames [])"
    by (auto simp: ingest_documents_def Let_def split: if_splits sum.splits)
  from assms(2) chunks split_documents_mem
  obtain d where d: "d \<in> set (ingest_files env data_dir filenames [])"
    and md: "metadata c = metadata d"
    and pc: "page_content c \<in> set (split_text env (page_content d))"
    by blast
  from ingest_files_mem [OF d]
  obtain filename loaded_docs doc content where
    f: "filename \<in> set filenames" "loaded_by env data_dir filename loaded_docs"
       "doc \<in> set loaded_docs" "clean_text_content env (page_content doc) = Inr content"
    and st: "d = stamp filename (fst (determine_metadata (path_join data_dir filename)))
                    (snd (determine_metadata (path_join data_dir filename))) content doc"
    by auto
  from pc st have pc': "page_content c \<in> set (split_text env content)"
    by (simp add: stamp_metadata)
  show ?thesis
    using names f md st pc' by (auto simp: stamp_metadata)
qed

theorem chunk_metadata_from_file_witness:
  "ingest_documents guideline_dir ''data'' = Inr [a1c_chunk] \<and> a1c_chunk \<in> set [a1c_chunk]
   \<and> (\<exists>filenames filename loaded_docs doc content.
           listdir guideline_dir ''data'' = Inr filenames \<and> filename \<in> set filenames
           \<and> loaded_by guideline_dir ''data'' filename loaded_docs \<and> doc \<in> set loaded_docs
           \<and> clean_text_content guideline_dir (page_content doc) = Inr content
           \<and> page_content a1c_chunk \<in> set (split_text guideline_dir content)
           \<and> metadata a1c_chunk =
               metadata (stamp filename (fst (determine_metadata (path_join ''data'' filename)))
                           (snd (determine_metadata (path_join ''data'' filename))) content doc)
           \<and> metadata a1c_chunk ''source'' = Some (MStr filename)
           \<and> metadata a1c_chunk ''type'' =
               Some (MStr (fst (determine_metadata (path_join ''data'' filename))))
           \<and> metadata a1c_chunk ''rank'' =
               Some (MInt (snd (determine_metadata (path_join ''data'' filename))))
           \<and> metadata a1c_chunk ''page'' =
               Some (case metadata doc ''page'' of None \<Rightarrow> MStr ''N/A'' | Some p \<Rightarrow> p))"
proof -
  have h1: "ingest_documents guideline_dir ''data'' = Inr [a1c_chunk]"
    by (rule guideline_dir_chunks)
  have h2: "a1c_chunk \<in> set [a1c_chunk]" by simp
  from chunk_metadata_from_file [OF h1 h2] h1 h2 show ?thesis by blast
qed

subsection \<open>Outcomes of an ingestion run\<close>

lemma ingest_files_none:
  "(\<And>filename loaded_docs. filename \<in> set filenames \<Longrightarrow> \<not> loaded_by env data_dir filename loaded_docs)
   \<Longrightarrow> ingest_files env data_dir filenames documents = documents"
proof (induction filenames)
  case Nil
  then show ?case by simp
next
  case (Cons filename rest)
  then have rest: "ingest_files env data_dir rest documents = documents" by simp
  have no: "\<And>loaded_docs. \<not> loaded_by env data_dir filename loaded_docs"
    using Cons.prems by simp
  show ?case
  proof (cases "endswith filename ''.pdf''")
    case True
    show ?thesis
    proof (cases "load_pdf env (path_join data_dir filename)")
      case (Inl e)
      with True rest show ?thesis by (simp split: prod.splits)
    next
      case (Inr l)
      with True have "loaded_by env data_dir filename l" by (simp add: loaded_by_def)
      with no show ?thesis by blast
    qed
  next
    case False
    show ?thesis
    proof (cases "endswith filename ''.csv''")
      case no_csv: False
      with False rest show ?thesis by (simp split: prod.splits)
    next
      case is_csv: True
      show ?thesis
      proof (cases "load_csv env (path_join data_dir filename)")
        case (Inl e)
        with False is_csv rest show ?thesis by (simp split: prod.splits)
      next
        case (Inr l)
        with False is_csv have "loaded_by env data_dir filename l" by (simp add: loaded_by_def)
        with no show ?thesis by blast
      qed
    qed
  qed
qed

text \<open>
  Claim C8, as amended. \<open>ingest_documents\<close> returns the list of chunks, and \<open>main\<close> reports
  its length after handing the list to \<open>index_documents\<close>. When the directory does not exist,
  or when no file of the directory loads (there is no file, or every file is unsupported or
  fails to load), the result is the empty list; and for an empty list, whatever its cause,
  \<open>main\<close> prints the one message "No documents found or failed to load." and writes nothing
  to the store.
\<close>

theorem ingest_outcomes:
  "(\<not> path_exists env data_dir \<longrightarrow> ingest_documents env data_dir = Inr [])
   \<and> (path_exists env data_dir \<and> listdir env data_dir = Inr filenames
        \<and> (\<forall>filename \<in> set filenames. \<forall>loaded_docs. \<not> loaded_by env data_dir filename loaded_docs)
      \<longrightarrow> ingest_documents env data_dir = Inr [])
   \<and> (ingest_documents env data_dir = Inr []
      \<longrightarrow> main_ingest env db data_dir w =
            Inr ([''Ingesting documents from '' @ data_dir @ ''...'',
                  ''No documents found or failed to load.''], w, []))
   \<and> (ingest_documents env data_dir = Inr docs \<and> docs \<noteq> []
      \<longrightarrow> main_ingest env db data_dir w =
            Inr ([''Ingesting documents from '' @ data_dir @ ''...'',
                  ''Successfully indexed '' @ str_nat (length docs) @ '' chunks.''],
                 index_documents db docs w))"
proof -
  have "path_exists env data_dir \<and> listdir env data_dir = Inr filenames
        \<and> (\<forall>filename \<in> set filenames. \<forall>loaded_docs. \<not> loaded_by env data_dir filename loaded_docs)
      \<Longrightarrow> ingest_documents env data_dir = Inr []"
  proof -
    assume a: "path_exists env data_dir \<and> listdir env data_dir = Inr filenames
        \<and> (\<forall>filename \<in> set filenames. \<forall>loaded_docs. \<not> loaded_by env data_dir filename loaded_docs)"
    then have "ingest_files env data_dir filenames [] = []"
      by (intro ingest_files_none) blast
    with a show ?thesis
      by (simp add: ingest_documents_def split_documents_def)
  qed
  then show ?thesis
    by (auto simp: ingest_documents_def main_ingest_def split: prod.splits)
qed

lemma broken_dir_fails:
  "\<forall>filename \<in> set [''guideline_diabetes.pdf'', ''faq.csv''].
     \<forall>loaded_docs. \<not> loaded_by broken_dir ''data'' filename loaded_docs"
  by (simp add: loaded_by_def broken_dir_def guideline_dir_def guideline_pdf faq_csv)

theorem ingest_outcomes_witness:
  "\<not> path_exists missing_dir ''data'' \<and> ingest_documents missing_dir ''data'' = Inr []
   \<and> (path_exists broken_dir ''data''
        \<and> listdir broken_dir ''data'' = Inr [''guideline_diabetes.pdf'', ''faq.csv'']
        \<and> (\<forall>loaded_docs. \<not> loaded_by broken_dir ''data'' ''guideline_diabetes.pdf'' loaded_docs)
        \<and> (\<forall>loaded_docs. \<not> loaded_by broken_dir ''data'' ''faq.csv'' loaded_docs))
   \<and> ingest_documents broken_dir ''data'' = Inr []
   \<and> main_ingest broken_dir steady_store ''data'' 0 =
        Inr ([''Ingesting documents from '' @ ''data'' @ ''...'',
              ''No documents found or failed to load.''], 0, [])
   \<and> ingest_documents guideline_dir ''data'' = Inr [a1c_chunk] \<and> [a1c_chunk] \<noteq> []
   \<and> main_ingest guideline_dir steady_store ''data'' 0 =
        Inr ([''Ingesting documents from '' @ ''data'' @ ''...'',
              ''Successfully indexed '' @ str_nat (length [a1c_chunk]) @ '' chunks.''],
             index_documents steady_store [a1c_chunk] 0)"
proof -
  have m: "\<not> path_exists missing_dir ''data''"
    by (simp add: missing_dir_def guideline_dir_def)
  have b: "path_exists broken_dir ''data''"
      "listdir broken_dir ''data'' = Inr [''guideline_diabetes.pdf'', ''faq.csv'']"
    by (simp_all add: broken_dir_def guideline_dir_def)
  show ?thesis
    using m b broken_dir_fails guideline_dir_chunks
      ingest_outcomes [where env = missing_dir and data_dir = "''data''" and docs = "[a1c_chunk]"
        and filenames = "[]" and db = steady_store and w = 0]
      ingest_outcomes [where env = broken_dir and data_dir = "''data''" and docs = "[a1c_chunk]"
        and filenames = "[''guideline_diabetes.pdf'', ''faq.csv'']" and db = steady_store and w = 0]
      ingest_outcomes [where env = guideline_dir and data_dir = "''data''" and docs = "[a1c_chunk]"
        and filenames = "[]" and db = steady_store and w = 0]
    by simp
qed

text \<open>
  Claim C8 as stated fails: a directory without files and a directory whose two files both
  fail to load give the same return value and the same outcome of \<open>main\<close>.
\<close>

theorem same_outcome_counterexample:
  "listdir empty_dir ''data'' = Inr []
   \<and> listdir broken_dir ''data'' = Inr [''guideline_diabetes.pdf'', ''faq.csv'']
   \<and> load_pdf broken_dir (path_join ''data'' ''guideline_diabetes.pdf'') = Inl (Exception ''corrupt file'')
   \<and> load_csv broken_dir (path_join ''data'' ''faq.csv'') = Inl (Exception ''not a table'')
   \<and> ingest_documents empty_dir ''data'' = Inr []
   \<and> ingest_documents broken_dir ''data'' = Inr []
   \<and> main_ingest empty_dir steady_store ''data'' 0 = main_ingest broken_dir steady_store ''data'' 0"
  by (simp add: ingest_documents_def main_ingest_def empty_dir_def broken_dir_def guideline_dir_def
      guideline_path guideline_pdf faq_path faq_csv split_documents_def)

section \<open>Indexing\<close>

lemma split_rest: "take k (drop i xs) @ drop (i + k) xs = drop i xs"
  using append_take_drop_id[of k "drop i xs"] by (simp add: add.commute)

lemma count_step:
  assumes "(i::nat) < n"
  shows "Suc ((n - (i + 32) + 31) div 32) = (n - i + 31) div 32"
proof (cases "i + 32 \<le> n")
  case True
  then obtain m where n: "n = i + 32 + m"
    using le_Suc_ex by blast
  have "(n - i + 31) div 32 = (32 + (m + 31)) div 32"
    unfolding n by (simp only: add.assoc add_diff_cancel_left')
  also have "\<dots> = Suc ((m + 31) div 32)"
    by (simp only: div_add_self1)
  finally show ?thesis unfolding n by (simp only: add_diff_cancel_left')
next
  case False
  then have a: "n - (i + 32) = 0" by simp
  obtain d where d: "n - i = d" by blast
  from False assms d have "32 \<le> d + 31" "d + 31 < 64" by linarith+
  then have "32 * 1 \<le> d + 31" "d + 31 < 32 * Suc 1" by simp_all
  then have "(d + 31) div 32 = 1" by (rule div_nat_eqI)
  then show ?thesis unfolding a d by (simp only: add_0 div_less)
qed

lemma index_from_done:
  "\<not> i < length documents \<Longrightarrow> index_from db documents i w = (w, [])"
  by (simp add: index_from.simps)

lemma index_from_first_ok:
  assumes "i < length documents"
    and "write_batch db i (take BATCH_SIZE (drop i documents)) w = (w1, Inr u)"
  shows "index_from db documents i w =
           (fst (index_from db documents (i + BATCH_SIZE) w1),
            WriteBatch i (take BATCH_SIZE (drop i documents))
              # snd (index_from db documents (i + BATCH_SIZE) w1))"
  using assms
  by (subst index_from.simps) (simp add: Let_def split: prod.splits)

lemma index_from_first_fails:
  assumes "i < length documents"
    and "write_batch db i (take BATCH_SIZE (drop i documents)) w = (w1, Inl e)"
    and "add_documents db (take BATCH_SIZE (drop i documents)) w1 = (w2, r)"
  shows "index_from db documents i w =
           (fst (index_from db documents (i + BATCH_SIZE) w2),
            [WriteBatch i (take BATCH_SIZE (drop i documents)), ErrorLogged i, Sleep 5,
             RetryBatch (take BATCH_SIZE (drop i documents))]
              @ (case r of Inl e2 \<Rightarrow> [RetryFailedLogged i] | Inr u \<Rightarrow> [])
              @ snd (index_from db documents (i + BATCH_SIZE) w2))"
  using assms
  by (subst index_from.simps) (simp add: Let_def split: prod.splits sum.splits)

lemma index_from_step:
  assumes "i < length documents" and "index_from db documents i w = (w', evs)"
  shows "\<exists>w2 rest. index_from db documents (i + BATCH_SIZE) w2 = (w', rest)
           \<and> (evs = WriteBatch i (take BATCH_SIZE (drop i documents)) # rest
              \<or> evs = WriteBatch i (take BATCH_SIZE (drop i documents)) # ErrorLogged i # Sleep 5
                       # RetryBatch (take BATCH_SIZE (drop i documents)) # rest
              \<or> evs = WriteBatch i (take BATCH_SIZE (drop i documents)) # ErrorLogged i # Sleep 5
                       # RetryBatch (take BATCH_SIZE (drop i documents))
                       # RetryFailedLogged i # rest)"
  using assms
  by (subst (asm) index_from.simps) (auto simp: Let_def split: prod.splits sum.splits if_splits)

lemma index_from_batches:
  "index_from db documents i w = (w', evs) \<Longrightarrow>
     concat (batches_written evs) = drop i documents
     \<and> (\<forall>b \<in> set (batches_written evs). b \<noteq> [] \<and> length b \<le> BATCH_SIZE)
     \<and> length (batches_written evs) = (length documents - i + 31) div 32
     \<and> retry_protocol evs"
proof (induction "length documents - i" arbitrary: i w w' evs rule: less_induct)
  case less
  show ?case
  proof (cases "i < length documents")
    case False
    with less.prems have "evs = []"
      by (simp add: index_from_done)
    with False show ?thesis
      by (simp add: retry_protocol.finished)
  next
    case True
    define batch where "batch = take BATCH_SIZE (drop i documents)"
    have batch_ne: "batch \<noteq> []" and batch_len: "length batch \<le> BATCH_SIZE"
      using True by (auto simp: batch_def BATCH_SIZE_def)
    from index_from_step [OF True less.prems]
    obtain w2 rest where rec: "index_from db documents (i + BATCH_SIZE) w2 = (w', rest)"
      and shape: "evs = WriteBatch i batch # rest
              \<or> evs = WriteBatch i batch # ErrorLogged i # Sleep 5 # RetryBatch batch # rest
              \<or> evs = WriteBatch i batch # ErrorLogged i # Sleep 5 # RetryBatch batch
                       # RetryFailedLogged i # rest"
      unfolding batch_def by blast
    have smaller: "length documents - (i + BATCH_SIZE) < length documents - i"
      using True by (simp add: BATCH_SIZE_def)
    note ih = less.hyps [OF smaller rec]
    have written: "batches_written evs = batch # batches_written rest"
      using shape by auto
    have c1: "concat (batches_written evs) = drop i documents"
      using ih written by (simp add: batch_def split_rest)
    have c2: "\<forall>b \<in> set (batches_written evs). b \<noteq> [] \<and> length b \<le> BATCH_SIZE"
      using ih written batch_ne batch_len by simp
    have c3: "length (batches_written evs) = (length documents - i + 31) div 32"
      using ih written count_step [OF True] by (simp add: BATCH_SIZE_def)
    have c4: "retry_protocol evs"
      using shape ih by (auto intro: retry_protocol.intros)
    from c1 c2 c3 c4 show ?thesis by blast
  qed
qed

lemma write_batch_recording:
  "write_batch (recording db) i batch (w, received) =
     (case write_batch db i batch w of (w', r) \<Rightarrow> ((w', received @ [batch]), r))"
  by (simp add: write_batch_def recording_def)

lemma add_documents_recording:
  "add_documents (recording db) batch (w, received) =
     (case add_documents db batch w of (w', r) \<Rightarrow> ((w', received @ [batch]), r))"
  by (simp add: recording_def)

lemma index_from_recording:
  "index_from (recording db) documents i (w, received) =
     ((fst (index_from db documents i w), received @ batches_sent (snd (index_from db documents i w))),
      snd (index_from db documents i w))"
proof (induction "length documents - i" arbitrary: i w received rule: less_induct)
  case less
  show ?case
  proof (cases "i < length documents")
    case False
    then show ?thesis by (simp add: index_from_done)
  next
    case True
    define batch where "batch = take BATCH_SIZE (drop i documents)"
    have smaller: "length documents - (i + BATCH_SIZE) < length documents - i"
      using True by (simp add: BATCH_SIZE_def)
    note ih = less.hyps [OF smaller]
    obtain w1 r1 where first: "write_batch db i batch w = (w1, r1)"
      by (cases "write_batch db i batch w")
    then have first': "write_batch (recording db) i batch (w, received) = ((w1, received @ [batch]), r1)"
      by (simp add: write_batch_recording)
    show ?thesis
    proof (cases r1)
      case (Inr u)
      from index_from_first_ok [OF True first [unfolded batch_def Inr]]
        index_from_first_ok [OF True first' [unfolded batch_def Inr]]
      show ?thesis
        by (simp add: ih batch_def)
    next
      case (Inl e)
      obtain w2 r2 where second: "add_documents db batch w1 = (w2, r2)"
        by (cases "add_documents db batch w1")
      then have second': "add_documents (recording db) batch (w1, received @ [batch]) =
                            ((w2, received @ [batch, batch]), r2)"
        by (simp add: add_documents_recording)
      from index_from_first_fails [OF True first [unfolded batch_def Inl] second [unfolded batch_def]]
        index_from_first_fails [OF True first' [unfolded batch_def Inl] second' [unfolded batch_def]]
      show ?thesis
        by (cases r2) (simp_all add: ih batch_def)
    qed
  qed
qed

text \<open>
  Claim C10. The first writes of a run of \<open>index_documents\<close> cut the sequence of chunks into
  consecutive batches in order: put together they are the sequence itself, none is empty and
  none has more than 32 chunks, and their number is the number of chunks divided by 32,
  rounded up, whatever writes fail (so every batch is attempted). The run follows the retry
  protocol: a failed first write is followed by its logged error, a sleep of 5 seconds and
  exactly one second write of the same batch, whose failure is logged. What the store
  receives is exactly the batches of the first and second writes, in that order: a store
  that records its calls ends with them, and with the same world and events. Step by step:
  at offset \<open>i\<close> the store is given the chunks from \<open>i\<close> up to \<open>i + 32\<close> (by
  \<open>from_documents\<close> for the first batch when the persistence directory does not exist, by
  \<open>add_documents\<close> otherwise); when that write succeeds the run goes on at \<open>i + 32\<close> in the
  world the write left; when it raises, the same batch is given once more to
  \<open>add_documents\<close> and the run goes on at \<open>i + 32\<close> in the world the second write left,
  whether it succeeded or not; past the last chunk the run ends and leaves the world as it is.
\<close>

theorem index_documents_batches_and_retry:
  "(index_documents db documents w = (w', evs) \<longrightarrow>
      concat (batches_written evs) = documents
      \<and> (\<forall>b \<in> set (batches_written evs). b \<noteq> [] \<and> length b \<le> 32)
      \<and> length (batches_written evs) = (length documents + 31) div 32
      \<and> retry_protocol evs
      \<and> index_documents (recording db) documents (w, received) =
           ((w', received @ batches_sent evs), evs))
   \<and> (i < length documents
        \<and> (if i = 0 \<and> \<not> persist_exists db w
            then from_documents db (take 32 (drop i documents)) w
            else add_documents db (take 32 (drop i documents)) w) = (w1, Inr u)
      \<longrightarrow> index_from db documents i w =
            (fst (index_from db documents (i + 32) w1),
             WriteBatch i (take 32 (drop i documents))
               # snd (index_from db documents (i + 32) w1)))
   \<and> (i < length documents
        \<and> (if i = 0 \<and> \<not> persist_exists db w
            then from_documents db (take 32 (drop i documents)) w
            else add_documents db (take 32 (drop i documents)) w) = (w1, Inl e)
        \<and> add_documents db (take 32 (drop i documents)) w1 = (w2, r)
      \<longrightarrow> index_from db documents i w =
            (fst (index_from db documents (i + 32) w2),
             [WriteBatch i (take 32 (drop i documents)), ErrorLogged i, Sleep 5,
              RetryBatch (take 32 (drop i documents))]
               @ (case r of Inl e2 \<Rightarrow> [RetryFailedLogged i] | Inr u \<Rightarrow> [])
               @ snd (index_from db documents (i + 32) w2)))
   \<and> (length documents \<le> i \<longrightarrow> index_from db documents i w = (w, []))
   \<and> index_documents db documents w =
       (if documents = [] then (w, []) else index_from db documents 0 w)"
proof -
  have a: "concat (batches_written evs) = documents
      \<and> (\<forall>b \<in> set (batches_written evs). b \<noteq> [] \<and> length b \<le> 32)
      \<and> length (batches_written evs) = (length documents + 31) div 32
      \<and> retry_protocol evs
      \<and> index_documents (recording db) documents (w, received) =
           ((w', received @ batches_sent evs), evs)"
    if run: "index_documents db documents w = (w', evs)"
  proof (cases "documents = []")
    case True
    with run have "evs = []" "w' = w" by (simp_all add: index_documents_def)
    with True show ?thesis by (simp add: retry_protocol.finished index_documents_def)
  next
    case False
    with run have from0: "index_from db documents 0 w = (w', evs)"
      by (simp add: index_documents_def)
    have "index_documents (recording db) documents (w, received) =
           ((w', received @ batches_sent evs), evs)"
      using False by (simp add: index_documents_def index_from_recording from0)
    with index_from_batches [OF from0] show ?thesis
      by (simp add: BATCH_SIZE_def)
  qed
  have b: "index_from db documents i w =
            (fst (index_from db documents (i + 32) w1),
             WriteBatch i (take 32 (drop i documents))
               # snd (index_from db documents (i + 32) w1))"
    if "i < length documents"
      and "(if i = 0 \<and> \<not> persist_exists db w
            then from_documents db (take 32 (drop i documents)) w
            else add_documents db (take 32 (drop i documents)) w) = (w1, Inr u)"
    using index_from_first_ok [of i documents db w w1 u] that
    by (simp add: BATCH_SIZE_def write_batch_def)
  have c: "index_from db documents i w =
            (fst (index_from db documents (i + 32) w2),
             [WriteBatch i (take 32 (drop i documents)), ErrorLogged i, Sleep 5,
              RetryBatch (take 32 (drop i documents))]
               @ (case r of Inl e2 \<Rightarrow> [RetryFailedLogged i] | Inr u \<Rightarrow> [])
               @ snd (index_from db documents (i + 32) w2))"
    if "i < length documents"
      and "(if i = 0 \<and> \<not> persist_exists db w
            then from_documents db (take 32 (drop i documents)) w
            else add_documents db (take 32 (drop i documents)) w) = (w1, Inl e)"
      and "add_documents db (take 32 (drop i documents)) w1 = (w2, r)"
    using index_from_first_fails [of i documents db w w1 e w2 r] that
    by (simp add: BATCH_SIZE_def write_batch_def)
  have d: "index_from db documents i w = (w, [])" if "length documents \<le> i"
    using that by (simp add: index_from_done)
  have e: "index_documents db documents w =
       (if documents = [] then (w, []) else index_from db documents 0 w)"
    by (simp add: index_documents_def)
  from a b c d e show ?thesis by blast
qed

lemma flaky_run:
  "index_documents flaky_store (replicate 40 blank_doc) 0 = (3, flaky_events)"
  by (simp add: index_documents_def index_from.simps write_batch_def flaky_store_def
      BATCH_SIZE_def Let_def flaky_events_def)

lemma flaky_tail:
  "index_from flaky_store (replicate 40 blank_doc) 64 3 = (3, [])"
  "index_from flaky_store (replicate 40 blank_doc) 32 2 = (3, [WriteBatch 32 (replicate 8 blank_doc)])"
  by (simp_all add: index_from.simps write_batch_def flaky_store_def BATCH_SIZE_def Let_def)

theorem index_documents_batches_and_retry_witness:
  "index_documents flaky_store (replicate 40 blank_doc) 0 = (3, flaky_events)
   \<and> concat (batches_written flaky_events) = replicate 40 blank_doc
   \<and> batches_written flaky_events = [replicate 32 blank_doc, replicate 8 blank_doc]
   \<and> length (batches_written flaky_events) = (length (replicate 40 blank_doc) + 31) div 32
   \<and> retry_protocol flaky_events
   \<and> batches_sent flaky_events =
        [replicate 32 blank_doc, replicate 32 blank_doc, replicate 8 blank_doc]
   \<and> index_documents (recording flaky_store) (replicate 40 blank_doc) (0, []) =
        ((3, [replicate 32 blank_doc, replicate 32 blank_doc, replicate 8 blank_doc]), flaky_events)
   \<and> (0 < length (replicate 40 blank_doc)
        \<and> add_documents flaky_store (replicate 32 blank_doc) 0 = (1, Inl (Exception ''timeout''))
        \<and> add_documents flaky_store (replicate 32 blank_doc) 1 = (2, Inl (Exception ''timeout'')))
   \<and> index_from flaky_store (replicate 40 blank_doc) 0 0 =
        (3, [WriteBatch 0 (replicate 32 blank_doc), ErrorLogged 0, Sleep 5,
             RetryBatch (replicate 32 blank_doc), RetryFailedLogged 0,
             WriteBatch 32 (replicate 8 blank_doc)])
   \<and> (32 < length (replicate 40 blank_doc)
        \<and> add_documents flaky_store (replicate 8 blank_doc) 2 = (3, Inr ()))
   \<and> index_from flaky_store (replicate 40 blank_doc) 32 2 =
        (3, [WriteBatch 32 (replicate 8 blank_doc)])
   \<and> length (replicate 40 blank_doc) \<le> 64
   \<and> index_from flaky_store (replicate 40 blank_doc) 64 3 = (3, [])"
proof -
  have store: "persist_exists flaky_store w"
      "add_documents flaky_store batch 0 = (1, Inl (Exception ''timeout''))"
      "add_documents flaky_store batch 1 = (2, Inl (Exception ''timeout''))"
      "add_documents flaky_store batch 2 = (3, Inr ())" for w batch
    by (simp_all add: flaky_store_def)
  have sent: "batches_written flaky_events = [replicate 32 blank_doc, replicate 8 blank_doc]"
      "batches_sent flaky_events =
         [replicate 32 blank_doc, replicate 32 blank_doc, replicate 8 blank_doc]"
    by (simp_all add: flaky_events_def)
  have cut: "take 32 (replicate 40 blank_doc) = replicate 32 blank_doc"
      "take 32 (drop 32 (replicate 40 blank_doc)) = replicate 8 blank_doc"
    by simp_all
  show ?thesis
    using flaky_run flaky_tail store sent cut
      index_documents_batches_and_retry [where db = flaky_store
        and documents = "replicate 40 blank_doc" and w = 0 and w' = 3 and evs = flaky_events
        and received = "[]" and i = 0 and ?w1.0 = 1 and e = "Exception ''timeout''"
        and ?w2.0 = 2 and r = "Inl (Exception ''timeout'')"]
      index_documents_batches_and_retry [where db = flaky_store
        and documents = "replicate 40 blank_doc" and w = 2 and i = 32 and ?w1.0 = 3 and u = "()"]
      index_documents_batches_and_retry [where db = flaky_store
        and documents = "replicate 40 blank_doc" and w = 3 and i = 64]
    by (simp add: flaky_events_def)
qed

end
